theory Spec2Isabelle
  imports Complex_Main "HOL-Library.Word"
begin

unbundle bit_operations_syntax

section \<open>Conventions of the embedding\<close>

text \<open>
  The program is the PDM telemetry simulator (\<^verbatim>\<open>stm32_sim.py\<close>, the producer), its
  scenarios (\<^verbatim>\<open>test_cases.py\<close>) and the reader (\<^verbatim>\<open>usb_reader.py\<close>, the consumer).

  \<^item> A Python \<^verbatim>\<open>bytes\<close> value is a list of 8-bit words.
  \<^item> A Python \<^verbatim>\<open>int\<close> is an \<open>int\<close>.
  \<^item> A Python \<^verbatim>\<open>float\<close> is idealised as a \<open>real\<close>: arithmetic is exact, comparisons are
    the mathematical ones. No rounding error of IEEE doubles is modelled. Where a property
    is refuted at a concrete input, the input is a dyadic rational on which every double
    operation of the source is exact, or the refuted property (a current that is not zero, a
    raised error) does not depend on the last bit.
  \<^item> Module-level and instance state is passed explicitly; the wall clock, the trigger file,
    the control file and the random draws are inputs of the functions that read them.
  \<^item> A raised exception is a value of \<open>py_error\<close>.
\<close>

type_synonym byte = "8 word"

datatype py_error = StructError | IndexError

section \<open>Consumer: the shared snapshot of \<^verbatim>\<open>usb_reader.py\<close>\<close>

text \<open>
  One entry of \<^verbatim>\<open>pdm_data["channels"]\<close>. The keys \<^verbatim>\<open>id\<close>, \<^verbatim>\<open>name\<close>, \<^verbatim>\<open>voltage\<close>, \<^verbatim>\<open>current\<close>,
  \<^verbatim>\<open>temperature\<close>, \<^verbatim>\<open>status\<close> carry the prefix \<open>ch_\<close> here, since the producer's
  channel dictionaries use some of the same keys.
\<close>

record status_flags =
  on :: bool
  fault :: bool
  over_current :: bool
  over_temp :: bool

record channel =
  ch_id :: nat
  ch_name :: string
  ch_voltage :: real
  ch_current :: real
  ch_temperature :: real
  ch_status :: status_flags

record store =
  timestamp :: "string option"
  system_voltage :: real
  total_current :: real
  channels :: "channel list"

text \<open>The two module globals \<^verbatim>\<open>parse_packet\<close> touches.\<close>

record globals =
  pdm_data :: store
  channel_enabled :: "bool list"

definition CHANNEL_NAMES :: "string list" where
  "CHANNEL_NAMES = [''ECU'', ''Fuel Pump'', ''Ignition Coil'', ''Radiator Fan'',
     ''Data Logger'', ''Dashboard'', ''Sensors'', ''Starter Motor'']"

definition pdm_data_init :: store where
  "pdm_data_init = \<lparr> timestamp = None, system_voltage = 0, total_current = 0,
     channels = map (\<lambda>i. \<lparr> ch_id = i, ch_name = CHANNEL_NAMES ! i, ch_voltage = 0,
        ch_current = 0, ch_temperature = 0,
        ch_status = \<lparr> on = False, fault = False, over_current = False, over_temp = False \<rparr> \<rparr>)
       [0, 1, 2, 3, 4, 5, 6, 7] \<rparr>"

definition globals_init :: globals where
  "globals_init = \<lparr> pdm_data = pdm_data_init, channel_enabled = replicate 8 True \<rparr>"

text \<open>
  The shape both globals keep for the life of the process: eight channel records and
  eight mask entries (\<^verbatim>\<open>set_channel\<close> assigns entries in place, for indices 0 to 7 only).
\<close>

definition wf_globals :: "globals \<Rightarrow> bool" where
  "wf_globals g \<longleftrightarrow> length (channels (pdm_data g)) = 8 \<and> length (channel_enabled g) = 8"

subsection \<open>Python's \<^verbatim>\<open>round(x, n)\<close> and \<^verbatim>\<open>int(x)\<close> on exact values\<close>

text \<open>
  \<^verbatim>\<open>round(x, n)\<close> rounds to the nearest multiple of \<open>10 ^ -n\<close>, an exact tie to the even
  neighbour. (On doubles a decimal tie such as 2.675 is usually not a tie of the stored
  binary value; the bounds proved below hold for either neighbour.)
\<close>

definition round_half_even :: "real \<Rightarrow> int" where
  "round_half_even x =
     (let f = \<lfloor>x\<rfloor>; d = x - of_int f
      in if d < 1 / 2 then f else if 1 / 2 < d then f + 1 else if even f then f else f + 1)"

definition py_round :: "real \<Rightarrow> nat \<Rightarrow> real" where
  "py_round x n = of_int (round_half_even (x * 10 ^ n)) / 10 ^ n"

text \<open>\<^verbatim>\<open>int(x)\<close> truncates towards zero.\<close>

definition py_int :: "real \<Rightarrow> int" where
  "py_int x = (if 0 \<le> x then \<lfloor>x\<rfloor> else \<lceil>x\<rceil>)"

subsection \<open>\<^verbatim>\<open>struct.unpack_from('<HHhB', packet, offset)\<close>\<close>

definition unpack_H :: "byte \<Rightarrow> byte \<Rightarrow> int" where
  "unpack_H lo hi = uint lo + 256 * uint hi"

definition unpack_h :: "byte \<Rightarrow> byte \<Rightarrow> int" where
  "unpack_h lo hi = (let u = unpack_H lo hi in if 32768 \<le> u then u - 65536 else u)"

definition unpack_from :: "byte list \<Rightarrow> nat \<Rightarrow> py_error + (int \<times> int \<times> int \<times> byte)" where
  "unpack_from packet offset =
     (if length packet < offset + 7 then Inl StructError
      else Inr (unpack_H (packet ! offset) (packet ! (offset + 1)),
                unpack_H (packet ! (offset + 2)) (packet ! (offset + 3)),
                unpack_h (packet ! (offset + 4)) (packet ! (offset + 5)),
                packet ! (offset + 6)))"

subsection \<open>\<^verbatim>\<open>USBReader.parse_packet\<close>\<close>

text \<open>The running XOR of the checksum loops, on both sides of the link.\<close>

definition xor_bytes :: "byte list \<Rightarrow> byte" where
  "xor_bytes bs = foldl (XOR) 0 bs"

text \<open>
  The record written by \<^verbatim>\<open>pdm_data["channels"][i].update({...})\<close>: the four measured keys
  are replaced, \<^verbatim>\<open>id\<close> and \<^verbatim>\<open>name\<close> stay.
\<close>

definition store_channel :: "bool \<Rightarrow> int \<times> int \<times> int \<times> byte \<Rightarrow> channel \<Rightarrow> real \<times> channel" where
  "store_channel enabled rec ch =
     (case rec of (voltage_mv, current_ma, temp_dec, status_byte) \<Rightarrow>
        let voltage = real_of_int voltage_mv / 1000;
            current0 = real_of_int current_ma / 1000;
            temperature = real_of_int temp_dec / 10;
            on_flag = (if \<not> enabled then False else status_byte AND 1 \<noteq> 0);
            current = (if \<not> enabled then 0 else current0)
        in (current,
            ch\<lparr> ch_voltage := py_round voltage 2,
                ch_current := py_round current 2,
                ch_temperature := py_round temperature 1,
                ch_status := \<lparr> on = on_flag,
                               fault = (status_byte AND 2 \<noteq> 0),
                               over_current = (status_byte AND 4 \<noteq> 0),
                               over_temp = (status_byte AND 8 \<noteq> 0) \<rparr> \<rparr>))"

text \<open>
  The values the loop holds for a channel before the override and the rounding: the local
  variables \<^verbatim>\<open>voltage\<close>, \<^verbatim>\<open>current\<close>, \<^verbatim>\<open>temperature\<close> and \<^verbatim>\<open>status_byte\<close> of lines
  124 to 130, from the record \<^verbatim>\<open>unpack_from\<close> returned. \<open>store_channel\<close> computes the same
  values in its \<open>let\<close>; lemma \<open>store_channel_unit_values\<close> states it.
\<close>

definition unit_values :: "int \<times> int \<times> int \<times> byte \<Rightarrow> real \<times> real \<times> real \<times> byte" where
  "unit_values rec =
     (case rec of (voltage_mv, current_ma, temp_dec, status_byte) \<Rightarrow>
        (real_of_int voltage_mv / 1000, real_of_int current_ma / 1000,
         real_of_int temp_dec / 10, status_byte))"

text \<open>
  One pass of the body of \<^verbatim>\<open>for i in range(8)\<close>. The loop state is the offset, the running
  total and the channel list being mutated. Each of the three reads that can raise
  (\<^verbatim>\<open>unpack_from\<close>, \<^verbatim>\<open>channel_enabled[i]\<close>, \<^verbatim>\<open>pdm_data["channels"][i]\<close>) comes before the
  write of the same pass.
\<close>

definition parse_channel ::
  "byte list \<Rightarrow> bool list \<Rightarrow> nat \<Rightarrow> nat \<times> real \<times> channel list
     \<Rightarrow> py_error + (nat \<times> real \<times> channel list)" where
  "parse_channel packet enabled i s =
     (case s of (offset, tot, chs) \<Rightarrow>
        (case unpack_from packet offset of
           Inl e \<Rightarrow> Inl e
         | Inr rec \<Rightarrow>
             if length enabled \<le> i then Inl IndexError
             else if length chs \<le> i then Inl IndexError
             else (case store_channel (enabled ! i) rec (chs ! i) of
                     (current, ch') \<Rightarrow> Inr (offset + 7, tot + current, chs[i := ch']))))"

fun parse_loop ::
  "byte list \<Rightarrow> bool list \<Rightarrow> nat list \<Rightarrow> nat \<times> real \<times> channel list
     \<Rightarrow> py_error option \<times> nat \<times> real \<times> channel list" where
  "parse_loop packet enabled [] s = (None, s)"
| "parse_loop packet enabled (i # rest) s =
     (case parse_channel packet enabled i s of
        Inl e \<Rightarrow> (Some e, s)
      | Inr s' \<Rightarrow> parse_loop packet enabled rest s')"

text \<open>
  How a call of \<^verbatim>\<open>parse_packet\<close> ends: one of the three \<^verbatim>\<open>return False\<close> statements, in the
  order of the source, the final \<^verbatim>\<open>return True\<close>, or an exception.
\<close>

datatype parse_exit = FalseLength | FalseHeader | FalseChecksum | ReturnTrue | Raises py_error

definition returned :: "parse_exit \<Rightarrow> bool option" where
  "returned e = (case e of ReturnTrue \<Rightarrow> Some True | Raises _ \<Rightarrow> None | _ \<Rightarrow> Some False)"

text \<open>\<open>now\<close> is the value of \<^verbatim>\<open>datetime.now().isoformat()\<close> read by the call.\<close>

definition parse_packet :: "string \<Rightarrow> byte list \<Rightarrow> globals \<Rightarrow> parse_exit \<times> globals" where
  "parse_packet now packet g =
     (if length packet \<noteq> 58 then (FalseLength, g)
      else if packet ! 0 \<noteq> 0xAA then (FalseHeader, g)
      else if xor_bytes (butlast packet) \<noteq> last packet then (FalseChecksum, g)
      else (case parse_loop packet (channel_enabled g) [0..<8] (1, 0, channels (pdm_data g)) of
              (Some e, offset, tot, chs) \<Rightarrow>
                (Raises e, g\<lparr>pdm_data := (pdm_data g)\<lparr>channels := chs\<rparr>\<rparr>)
            | (None, offset, tot, chs) \<Rightarrow>
                (case chs of
                   [] \<Rightarrow> (Raises IndexError, g\<lparr>pdm_data := (pdm_data g)\<lparr>channels := chs\<rparr>\<rparr>)
                 | ch0 # _ \<Rightarrow>
                     (ReturnTrue,
                      g\<lparr>pdm_data := \<lparr> timestamp = Some now,
                                       system_voltage = py_round (ch_voltage ch0) 2,
                                       total_current = py_round tot 2,
                                       channels = chs \<rparr>\<rparr>))))"


subsection \<open>Closed form of the decode loop\<close>

text \<open>
  The 7-byte record of channel \<open>i\<close> as the loop reads it at offset \<open>1 + 7 * i\<close>, the channel
  record it writes, and the current it adds to the running total.
\<close>

definition record_at :: "byte list \<Rightarrow> nat \<Rightarrow> int \<times> int \<times> int \<times> byte" where
  "record_at packet i =
     (let offset = 1 + 7 * i
      in (unpack_H (packet ! offset) (packet ! (offset + 1)),
          unpack_H (packet ! (offset + 2)) (packet ! (offset + 3)),
          unpack_h (packet ! (offset + 4)) (packet ! (offset + 5)),
          packet ! (offset + 6)))"

definition decoded :: "byte list \<Rightarrow> bool list \<Rightarrow> nat \<Rightarrow> channel \<Rightarrow> channel" where
  "decoded packet enabled i ch = snd (store_channel (enabled ! i) (record_at packet i) ch)"

definition decoded_current :: "byte list \<Rightarrow> bool list \<Rightarrow> nat \<Rightarrow> real" where
  "decoded_current packet enabled i =
     (if enabled ! i then real_of_int (fst (snd (record_at packet i))) / 1000 else 0)"


text \<open>
  The validity predicate in the words of the specification: length 58, byte 0 the sync
  marker, trailing byte the XOR of bytes 0 to 56. It is compared with the three checks of
  \<open>parse_packet\<close> below.
\<close>

definition spec_frame_valid :: "byte list \<Rightarrow> bool" where
  "spec_frame_valid b \<longleftrightarrow> length b = 58 \<and> b ! 0 = 0xAA \<and> b ! 57 = xor_bytes (take 57 b)"

definition frame_zero :: "byte list" where
  "frame_zero = 0xAA # replicate 56 0 @ [0xAA]"

section \<open>Producer: the scenarios of \<^verbatim>\<open>test_cases.py\<close>\<close>

text \<open>One channel dictionary of the producer, with the keys of the source.\<close>

record sample =
  voltage :: real
  current :: real
  temp :: real
  status :: int

text \<open>
  \<^verbatim>\<open>TestScenario.get_event_at_time\<close>: the \<^verbatim>\<open>for\<close> loop over \<^verbatim>\<open>self.events\<close>, with the
  variable \<^verbatim>\<open>current_event\<close> as accumulator. The event list is the first argument.
\<close>

fun event_loop :: "(real \<times> string) list \<Rightarrow> real \<Rightarrow> string \<Rightarrow> string" where
  "event_loop [] elapsed_time current_event = current_event"
| "event_loop ((event_time, message) # rest) elapsed_time current_event =
     event_loop rest elapsed_time (if elapsed_time \<ge> event_time then message else current_event)"

definition get_event_at_time :: "(real \<times> string) list \<Rightarrow> real \<Rightarrow> string" where
  "get_event_at_time events elapsed_time = event_loop events elapsed_time ''Normal operation''"

text \<open>The registry holds one instance of each of the two subclasses.\<close>

datatype scenario = CoolingFanFailure | EngineStartSequence

fun scenario_name :: "scenario \<Rightarrow> string" where
  "scenario_name CoolingFanFailure = ''Cooling Fan Failure''"
| "scenario_name EngineStartSequence = ''Engine Start Sequence''"

fun scenario_description :: "scenario \<Rightarrow> string" where
  "scenario_description CoolingFanFailure = ''Fan disconnects at 2s, temperature rises''"
| "scenario_description EngineStartSequence = ''Starter engages at 1s, engine starts at 3s''"

text \<open>\<^verbatim>\<open>self.duration = 5.0\<close> is set by the base class and never changed.\<close>

definition duration :: "scenario \<Rightarrow> real" where
  "duration sc = 5.0"

fun events :: "scenario \<Rightarrow> (real \<times> string) list" where
  "events CoolingFanFailure =
     [(0.0, ''Normal operation - all systems healthy''),
      (2.0, ''Bump! Fan connector loosened''),
      (2.5, ''Fan power dropping...''),
      (3.0, ''Fan stopped - fault detected''),
      (3.5, ''Temperature rising rapidly''),
      (4.0, ''Warning: High temperature detected''),
      (4.5, ''System continues running on reduced cooling'')]"
| "events EngineStartSequence =
     [(0.0, ''Pre-start: Dashboard and sensors only''),
      (1.0, ''Starter motor engaged - cranking''),
      (1.5, ''High current draw - voltage dropping''),
      (2.0, ''Cranking continues...''),
      (2.5, ''Engine almost started...''),
      (3.0, ''Engine started! All systems online''),
      (3.5, ''Systems stabilizing''),
      (4.0, ''Normal operation restored'')]"

definition mk :: "real \<Rightarrow> real \<Rightarrow> real \<Rightarrow> int \<Rightarrow> sample" where
  "mk v c t s = \<lparr> voltage = v, current = c, temp = t, status = s \<rparr>"

text \<open>\<^verbatim>\<open>CoolingFanFailure.get_channel_states\<close>.\<close>

definition fan_failure_base :: "sample list" where
  "fan_failure_base =
     [mk 13.8 5.2 45.0 1, mk 13.8 3.5 38.0 1, mk 13.8 4.8 42.0 1, mk 13.7 8.0 35.0 1,
      mk 13.8 1.2 32.0 1, mk 13.8 0.8 30.0 1, mk 13.8 2.1 35.0 1, mk 13.7 0.0 28.0 0]"

definition cooling_fan_states :: "real \<Rightarrow> sample list" where
  "cooling_fan_states elapsed_time =
     (let states = fan_failure_base;
          states =
            (if elapsed_time \<ge> 2.0 then
               (if elapsed_time < 2.5 then
                  states[3 := (states ! 3)\<lparr>current := 8.0 * (1 - (elapsed_time - 2.0) / 0.5)\<rparr>]
                else if elapsed_time < 3.0 then
                  states[3 := (states ! 3)\<lparr>current := 4.0 * (1 - (elapsed_time - 2.5) / 0.5)\<rparr>]
                else
                  states[3 := (states ! 3)\<lparr>current := 0.0, status := 2\<rparr>])
             else states);
          states =
            (if elapsed_time \<ge> 3.0 then
               (let temp_increase = (elapsed_time - 3.0) * 5.0
                in foldl (\<lambda>st i. st[i := (st ! i)\<lparr>temp := temp (st ! i) + temp_increase\<rparr>])
                     states [0..<7])
             else states)
      in states)"

text \<open>
  \<^verbatim>\<open>EngineStartSequence.get_channel_states\<close>. The source computes a \<^verbatim>\<open>recovery\<close> value
  after 3 s and does not use it.
\<close>

definition engine_start_base :: "sample list" where
  "engine_start_base =
     [mk 13.8 0.0 25.0 0, mk 13.8 0.0 25.0 0, mk 13.8 0.0 25.0 0, mk 13.8 0.0 25.0 0,
      mk 13.8 1.2 25.0 1, mk 13.8 0.8 25.0 1, mk 13.8 2.1 25.0 1, mk 13.8 0.0 25.0 0]"

definition engine_start_states :: "real \<Rightarrow> sample list" where
  "engine_start_states elapsed_time =
     (let states = engine_start_base;
          base_voltage = 13.8;
          states =
            (if 1.0 \<le> elapsed_time \<and> elapsed_time < 3.0 then
               (let states = states[7 := (states ! 7)\<lparr>status := 1\<rparr>];
                    states = states[7 := (states ! 7)\<lparr>current := 150.0 + (elapsed_time - 1.0) * 10.0\<rparr>];
                    voltage_drop = 2.5
                in foldl (\<lambda>st i. st[i := (st ! i)\<lparr>voltage := base_voltage - voltage_drop\<rparr>])
                     states [0..<8])
             else states);
          states =
            (if elapsed_time \<ge> 3.0 then
               (let states = states[7 := (states ! 7)\<lparr>status := 0\<rparr>];
                    states = states[7 := (states ! 7)\<lparr>current := 0.0\<rparr>];
                    states = states[0 := mk 13.8 5.2 30.0 1];
                    states = states[1 := mk 13.8 3.5 28.0 1];
                    states = states[2 := mk 13.8 4.8 32.0 1]
                in foldl (\<lambda>st i. st[i := (st ! i)\<lparr>voltage := base_voltage\<rparr>]) states [0..<8])
             else states)
      in states)"

text \<open>
  The method as \<^verbatim>\<open>_update_scenario_state\<close> calls it, inside \<^verbatim>\<open>try\<close>. Neither
  implementation has a raising path: every index is a literal below the length of the
  eight-element list built by the same call.
\<close>

fun get_channel_states :: "scenario \<Rightarrow> real \<Rightarrow> py_error + sample list" where
  "get_channel_states CoolingFanFailure elapsed_time = Inr (cooling_fan_states elapsed_time)"
| "get_channel_states EngineStartSequence elapsed_time = Inr (engine_start_states elapsed_time)"

definition get_scenario :: "int \<Rightarrow> scenario option" where
  "get_scenario scenario_id =
     (if scenario_id = 1 then Some CoolingFanFailure
      else if scenario_id = 2 then Some EngineStartSequence
      else None)"

section \<open>Producer: \<^verbatim>\<open>STM32Simulator\<close> of \<^verbatim>\<open>stm32_sim.py\<close>\<close>

text \<open>
  \<^verbatim>\<open>ScenarioInfo\<close> and the instance attributes the tick uses. The fields of \<^verbatim>\<open>ScenarioInfo\<close>
  carry the prefix \<open>info_\<close>; \<^verbatim>\<open>self.voltage\<close> is \<open>sys_voltage\<close>. The source's start label
  ends in the character U+2026, written here as three dots.
\<close>

record scenario_info =
  info_name :: string
  info_description :: string
  info_elapsed :: real
  info_status :: string
  info_current_event :: string

record simulator =
  sys_voltage :: real
  channels_state :: "sample list"
  active_scenario :: "scenario option"
  scenario_started_at :: real
  scenario_info :: scenario_info

definition ScenarioInfo_default :: scenario_info where
  "ScenarioInfo_default =
     \<lparr> info_name = ''Normal Operation'', info_description = ''All systems running normally'',
       info_elapsed = 0.0, info_status = ''idle'', info_current_event = ''Normal operation'' \<rparr>"

definition simulator_init :: simulator where
  "simulator_init =
     \<lparr> sys_voltage = 13.8,
       channels_state =
         [mk 13.8 5.2 45.0 1, mk 13.8 3.5 38.0 1, mk 13.8 4.8 42.0 1, mk 13.7 8.0 35.0 1,
          mk 13.8 1.2 32.0 1, mk 13.8 0.8 30.0 1, mk 13.8 2.1 35.0 1, mk 13.7 0.0 28.0 0],
       active_scenario = None,
       scenario_started_at = 0.0,
       scenario_info = ScenarioInfo_default \<rparr>"

text \<open>
  \<^verbatim>\<open>_maybe_start_scenario\<close>. \<open>trigger\<close> is what \<^verbatim>\<open>_load_trigger\<close> returned (None when there
  is no trigger file or it cannot be read), \<open>now\<close> the value of \<^verbatim>\<open>time.time()\<close>.
\<close>

definition maybe_start_scenario :: "int option \<Rightarrow> real \<Rightarrow> simulator \<Rightarrow> simulator" where
  "maybe_start_scenario trigger now sim =
     (case trigger of
        None \<Rightarrow> sim
      | Some scenario_id \<Rightarrow>
          (case get_scenario scenario_id of
             None \<Rightarrow> sim
           | Some sc \<Rightarrow>
               sim\<lparr> active_scenario := Some sc,
                    scenario_started_at := now,
                    scenario_info :=
                      \<lparr> info_name = scenario_name sc, info_description = scenario_description sc,
                        info_elapsed = 0.0, info_status = ''active'',
                        info_current_event = ''Starting...'' \<rparr> \<rparr>))"

text \<open>\<^verbatim>\<open>_update_scenario_state\<close>; \<open>now\<close> is its own reading of \<^verbatim>\<open>time.time()\<close>.\<close>

definition update_scenario_state :: "real \<Rightarrow> simulator \<Rightarrow> simulator" where
  "update_scenario_state now sim =
     (case active_scenario sim of
        None \<Rightarrow>
          sim\<lparr>scenario_info := (scenario_info sim)
                \<lparr> info_status := ''idle'', info_elapsed := 0.0,
                  info_current_event := ''Normal operation'' \<rparr>\<rparr>
      | Some sc \<Rightarrow>
          (let elapsed = now - scenario_started_at sim;
               info = (scenario_info sim)\<lparr> info_elapsed := elapsed, info_status := ''active'' \<rparr>
           in if elapsed \<ge> duration sc then
                sim\<lparr> active_scenario := None,
                     scenario_info := info\<lparr> info_status := ''complete'',
                                            info_current_event := ''Scenario complete'' \<rparr> \<rparr>
              else
                (case get_channel_states sc elapsed of
                   Inr states \<Rightarrow>
                     sim\<lparr> channels_state := states,
                          scenario_info :=
                            info\<lparr> info_current_event := get_event_at_time (events sc) elapsed \<rparr> \<rparr>
                 | Inl e \<Rightarrow>
                     sim\<lparr> active_scenario := None,
                          scenario_info := info\<lparr> info_status := ''idle'' \<rparr> \<rparr>)))"

text \<open>
  \<^verbatim>\<open>_apply_channel_controls\<close>. \<open>ctrl\<close> is the value of \<^verbatim>\<open>data.get("channels")\<close> after the
  truth test \<^verbatim>\<open>bool(on)\<close> of each entry, or None when the file is absent or unreadable.
  An index beyond \<^verbatim>\<open>channels_state\<close> raises inside \<^verbatim>\<open>try\<close>: the loop stops and the
  entries already written stay.
\<close>

fun apply_mask :: "nat \<Rightarrow> bool list \<Rightarrow> sample list \<Rightarrow> sample list" where
  "apply_mask i [] cs = cs"
| "apply_mask i (on_i # rest) cs =
     (if length cs \<le> i then cs
      else apply_mask (Suc i) rest (cs[i := (cs ! i)\<lparr>status := (if on_i then 1 else 0)\<rparr>]))"

definition apply_channel_controls :: "bool list option \<Rightarrow> simulator \<Rightarrow> simulator" where
  "apply_channel_controls ctrl sim =
     (case ctrl of
        None \<Rightarrow> sim
      | Some entries \<Rightarrow>
          if length entries = 8
          then sim\<lparr>channels_state := apply_mask 0 entries (channels_state sim)\<rparr>
          else sim)"

text \<open>
  \<^verbatim>\<open>_update_sensors\<close>. The draws of \<^verbatim>\<open>random.uniform\<close> are inputs: one for the system
  voltage, and per channel one for the voltage jitter and one for the current (the starter's
  draw from 80 to 120, the others' jitter of 0.3 around the base).
\<close>

record draws =
  d_system :: real
  d_voltage :: "nat \<Rightarrow> real"
  d_current :: "nat \<Rightarrow> real"

definition base_current :: "real list" where
  "base_current = [5.2, 3.5, 4.8, 8.0, 1.2, 0.8, 2.1, 100.0]"

definition sensor_step :: "draws \<Rightarrow> real \<Rightarrow> sample list \<Rightarrow> nat \<Rightarrow> sample list" where
  "sensor_step rnd v cs i =
     (let ch = cs ! i;
          is_on = (status ch AND 1 \<noteq> 0);
          ch = ch\<lparr>voltage := v + d_voltage rnd i\<rparr>;
          ch = (if is_on then
                  (if i = 7 then ch\<lparr>current := d_current rnd i\<rparr>
                   else ch\<lparr>current := max 0.5 (base_current ! i + d_current rnd i)\<rparr>)
                else ch\<lparr>current := 0.0\<rparr>);
          target = (if is_on then 25 + (current ch / 10.0) * 15 else 25.0);
          alpha = (if is_on then 0.05 else 0.02);
          ch = ch\<lparr>temp := temp ch + (target - temp ch) * alpha\<rparr>;
          ch = ch\<lparr>temp := max 20.0 (min 100.0 (temp ch))\<rparr>;
          cs = cs[i := ch]
      in if i = 3 then
           (let avg_temp = sum_list (map temp cs) / 8
            in if avg_temp > 40.0 \<and> \<not> is_on then cs[i := ch\<lparr>status := 1\<rparr>]
               else if avg_temp < 35.0 \<and> is_on then cs[i := ch\<lparr>status := 0\<rparr>]
               else cs)
         else cs)"

definition update_sensors :: "draws \<Rightarrow> simulator \<Rightarrow> simulator" where
  "update_sensors rnd sim =
     (case active_scenario sim of
        Some sc \<Rightarrow> sim
      | None \<Rightarrow>
          (let v = sys_voltage sim + d_system rnd;
               v = max 12.5 (min 14.5 v)
           in sim\<lparr> sys_voltage := v,
                   channels_state :=
                     foldl (sensor_step rnd v) (channels_state sim)
                       [0..<length (channels_state sim)] \<rparr>))"

subsection \<open>\<^verbatim>\<open>struct.pack("<HHhB", ...)\<close> and \<^verbatim>\<open>_make_packet\<close>\<close>

text \<open>\<^verbatim>\<open>struct.pack\<close> raises \<^verbatim>\<open>struct.error\<close> on an integer outside the range of its format.\<close>

definition pack_H :: "int \<Rightarrow> py_error + byte list" where
  "pack_H n = (if 0 \<le> n \<and> n \<le> 65535 then Inr [word_of_int n, word_of_int (n div 256)]
               else Inl StructError)"

definition pack_h :: "int \<Rightarrow> py_error + byte list" where
  "pack_h n = (if -32768 \<le> n \<and> n \<le> 32767 then Inr [word_of_int n, word_of_int (n div 256)]
               else Inl StructError)"

definition pack_B :: "int \<Rightarrow> py_error + byte list" where
  "pack_B n = (if 0 \<le> n \<and> n \<le> 255 then Inr [word_of_int n] else Inl StructError)"

definition pack_HHhB :: "int \<Rightarrow> int \<Rightarrow> int \<Rightarrow> int \<Rightarrow> py_error + byte list" where
  "pack_HHhB a b c d =
     (case pack_H a of Inl e \<Rightarrow> Inl e | Inr ba \<Rightarrow>
      case pack_H b of Inl e \<Rightarrow> Inl e | Inr bb \<Rightarrow>
      case pack_h c of Inl e \<Rightarrow> Inl e | Inr bc \<Rightarrow>
      case pack_B d of Inl e \<Rightarrow> Inl e | Inr bd \<Rightarrow> Inr (ba @ bb @ bc @ bd))"

fun make_packet_loop :: "sample list \<Rightarrow> byte list \<Rightarrow> py_error + byte list" where
  "make_packet_loop [] packet = Inr packet"
| "make_packet_loop (ch # rest) packet =
     (let voltage_mv = py_int (voltage ch * 1000);
          current_ma = py_int (current ch * 1000);
          temp_dec = py_int (temp ch * 10)
      in case pack_HHhB voltage_mv current_ma temp_dec (status ch) of
           Inl e \<Rightarrow> Inl e
         | Inr bs \<Rightarrow> make_packet_loop rest (packet @ bs))"

definition make_packet :: "sample list \<Rightarrow> py_error + byte list" where
  "make_packet channels_state_now =
     (case make_packet_loop channels_state_now [0xAA] of
        Inl e \<Rightarrow> Inl e
      | Inr packet \<Rightarrow> Inr (packet @ [xor_bytes packet]))"

text \<open>
  The state-changing part of one pass of the loop of \<^verbatim>\<open>run\<close>, in the order of the source,
  and the packet it then builds. \<open>t_start\<close> and \<open>t_update\<close> are the two readings of the clock.
\<close>

definition tick_state ::
  "int option \<Rightarrow> real \<Rightarrow> real \<Rightarrow> bool list option \<Rightarrow> draws \<Rightarrow> simulator \<Rightarrow> simulator" where
  "tick_state trigger t_start t_update ctrl rnd sim =
     update_sensors rnd
       (apply_channel_controls ctrl
          (update_scenario_state t_update
             (maybe_start_scenario trigger t_start sim)))"

definition tick_packet ::
  "int option \<Rightarrow> real \<Rightarrow> real \<Rightarrow> bool list option \<Rightarrow> draws \<Rightarrow> simulator
     \<Rightarrow> py_error + byte list" where
  "tick_packet trigger t_start t_update ctrl rnd sim =
     make_packet (channels_state (tick_state trigger t_start t_update ctrl rnd sim))"

subsection \<open>A run of ticks\<close>

text \<open>
  The inputs one tick reads (trigger, the two clock readings, control file, draws), and a
  run of the loop of \<^verbatim>\<open>run\<close> over a list of them. Each pass updates the state, builds the
  packet and only then calls \<^verbatim>\<open>_write_status_file\<close>, which publishes
  \<^verbatim>\<open>scenario_info.status\<close>. An error raised by \<^verbatim>\<open>_make_packet\<close> is not caught (only
  \<^verbatim>\<open>KeyboardInterrupt\<close> is): it ends the loop before the status of that pass is published.
  The result is the list of published statuses and the error that ended the run, if any.
  Writing to the serial port and to the status file is not modelled.
\<close>

type_synonym tick_input = "int option \<times> real \<times> real \<times> bool list option \<times> draws"

fun run_published :: "simulator \<Rightarrow> tick_input list \<Rightarrow> string list \<times> py_error option" where
  "run_published sim [] = ([], None)"
| "run_published sim ((trigger, t_start, t_update, ctrl, rnd) # rest) =
     (let sim' = tick_state trigger t_start t_update ctrl rnd sim
      in case make_packet (channels_state sim') of
           Inl e \<Rightarrow> ([], Some e)
         | Inr pkt \<Rightarrow>
             (case run_published sim' rest of
                (later, end) \<Rightarrow> (info_status (scenario_info sim') # later, end)))"

definition no_trigger :: "real \<times> real \<times> bool list option \<times> draws \<Rightarrow> tick_input" where
  "no_trigger x = (None, x)"

text \<open>
  The lifecycle in the words of the specification, for the elapsed times observed by the
  ticks of one trigger: active while elapsed is below the duration, complete at the first
  observation at or beyond it, idle afterwards.
\<close>

definition spec_lifecycle :: "real \<Rightarrow> real list \<Rightarrow> string list" where
  "spec_lifecycle D es =
     replicate (length (takeWhile (\<lambda>e. e < D) es)) ''active''
       @ (case dropWhile (\<lambda>e. e < D) es of
            [] \<Rightarrow> []
          | e # later \<Rightarrow> ''complete'' # replicate (length later) ''idle'')"

text \<open>Concrete inputs used below.\<close>

definition draws_zero :: draws where
  "draws_zero = \<lparr> d_system = 0, d_voltage = (\<lambda>i. 0), d_current = (\<lambda>i. 0) \<rparr>"

definition mask_ch0_off :: "bool list" where
  "mask_ch0_off = [False, True, True, True, True, True, True, True]"

definition mask_fan_off :: "bool list" where
  "mask_fan_off = [True, True, True, False, True, True, True, False]"

subsection \<open>Closed form of the packet\<close>

text \<open>
  A channel dictionary that \<^verbatim>\<open>struct.pack("<HHhB", ...)\<close> accepts: the three truncated
  scaled values and the status lie in the ranges of their formats.
\<close>

definition encodable :: "sample \<Rightarrow> bool" where
  "encodable ch \<longleftrightarrow>
     0 \<le> py_int (voltage ch * 1000) \<and> py_int (voltage ch * 1000) \<le> 65535
   \<and> 0 \<le> py_int (current ch * 1000) \<and> py_int (current ch * 1000) \<le> 65535
   \<and> -32768 \<le> py_int (temp ch * 10) \<and> py_int (temp ch * 10) \<le> 32767
   \<and> 0 \<le> status ch \<and> status ch \<le> 255"

text \<open>
  The seven bytes \<^verbatim>\<open>struct.pack\<close> produces for such a dictionary, and the 58 bytes
  \<^verbatim>\<open>_make_packet\<close> returns for a list of them.
\<close>

definition sample_bytes :: "sample \<Rightarrow> byte list" where
  "sample_bytes ch =
     [word_of_int (py_int (voltage ch * 1000)), word_of_int (py_int (voltage ch * 1000) div 256),
      word_of_int (py_int (current ch * 1000)), word_of_int (py_int (current ch * 1000) div 256),
      word_of_int (py_int (temp ch * 10)), word_of_int (py_int (temp ch * 10) div 256),
      word_of_int (status ch)]"

definition frame_of :: "sample list \<Rightarrow> byte list" where
  "frame_of cs = (0xAA # concat (map sample_bytes cs)) @ [xor_bytes (0xAA # concat (map sample_bytes cs))]"

text \<open>A clock reading used below.\<close>

definition now0 :: string where
  "now0 = ''2025-01-01T00:00:00''"

section \<open>Properties of the consumer\<close>

subsection \<open>The decode loop runs to its end on a 58-byte packet\<close>

lemma xor_last:
  "length b = 58 \<Longrightarrow> butlast b = take 57 b \<and> last b = b ! 57"
  by (cases "b = []") (simp_all add: butlast_conv_take last_conv_nth)

lemma unpack_from_record_at:
  "8 + 7 * i \<le> length packet \<Longrightarrow> unpack_from packet (1 + 7 * i) = Inr (record_at packet i)"
  by (simp add: unpack_from_def record_at_def Let_def)

lemma parse_channel_step:
  assumes "i < length enabled" "i < length chs" "8 + 7 * i \<le> length packet"
  shows "parse_channel packet enabled i (1 + 7 * i, tot, chs)
           = Inr (1 + 7 * Suc i, tot + decoded_current packet enabled i,
                  chs[i := decoded packet enabled i (chs ! i)])"
  using assms unpack_from_record_at [of i packet]
  by (simp add: parse_channel_def decoded_def decoded_current_def
      store_channel_def Let_def split: prod.splits)

lemma parse_loop_upt:
  assumes "n \<le> length enabled" "n \<le> length chs" "1 + 7 * n \<le> length packet"
  shows "parse_loop packet enabled [k..<n] (1 + 7 * k, tot, chs)
           = (None, 1 + 7 * max k n, tot + sum_list (map (decoded_current packet enabled) [k..<n]),
              map (\<lambda>i. if k \<le> i \<and> i < n then decoded packet enabled i (chs ! i) else chs ! i)
                [0..<length chs])"
  using assms
proof (induction "n - k" arbitrary: k tot chs)
  case 0
  then have "[k..<n] = []" by simp
  moreover have "max k n = k" using 0 by simp
  moreover have "map (\<lambda>i. if k \<le> i \<and> i < n then decoded packet enabled i (chs ! i) else chs ! i)
                [0..<length chs] = chs"
    using 0 by (intro nth_equalityI) auto
  ultimately show ?case by simp
next
  case (Suc d)
  then have kn: "k < n" and d: "d = n - Suc k" by simp_all
  have upt: "[k..<n] = k # [Suc k..<n]" using kn by (simp add: upt_conv_Cons)
  have step: "parse_channel packet enabled k (1 + 7 * k, tot, chs)
           = Inr (1 + 7 * Suc k, tot + decoded_current packet enabled k,
                  chs[k := decoded packet enabled k (chs ! k)])"
    using kn Suc.prems by (intro parse_channel_step) auto
  have ih: "parse_loop packet enabled [Suc k..<n]
              (1 + 7 * Suc k, tot + decoded_current packet enabled k,
               chs[k := decoded packet enabled k (chs ! k)])
           = (None, 1 + 7 * max (Suc k) n,
              tot + decoded_current packet enabled k
                + sum_list (map (decoded_current packet enabled) [Suc k..<n]),
              map (\<lambda>i. if Suc k \<le> i \<and> i < n
                         then decoded packet enabled i (chs[k := decoded packet enabled k (chs ! k)] ! i)
                         else chs[k := decoded packet enabled k (chs ! k)] ! i)
                [0..<length (chs[k := decoded packet enabled k (chs ! k)])])"
    using Suc.hyps(1) [OF d] Suc.prems by simp
  have lists: "map (\<lambda>i. if Suc k \<le> i \<and> i < n
                         then decoded packet enabled i (chs[k := decoded packet enabled k (chs ! k)] ! i)
                         else chs[k := decoded packet enabled k (chs ! k)] ! i)
                [0..<length (chs[k := decoded packet enabled k (chs ! k)])]
             = map (\<lambda>i. if k \<le> i \<and> i < n then decoded packet enabled i (chs ! i) else chs ! i)
                [0..<length chs]"
    using kn by (intro nth_equalityI) (auto simp: nth_list_update dest: le_antisym not_less_eq_eq [THEN iffD1])
  have mx: "max (Suc k) n = max k n" using kn by simp
  show ?case
    unfolding upt parse_loop.simps step sum.case ih lists mx by (simp add: add.assoc)
qed

lemma parse_loop_8:
  assumes "length enabled = 8" "length chs = 8" "length packet = 58"
  shows "parse_loop packet enabled [0..<8] (1, 0, chs)
           = (None, 57, sum_list (map (decoded_current packet enabled) [0..<8]),
              map (\<lambda>i. decoded packet enabled i (chs ! i)) [0..<8])"
proof -
  have "parse_loop packet enabled [0..<8] (1 + 7 * 0, 0, chs)
           = (None, 1 + 7 * max 0 8, 0 + sum_list (map (decoded_current packet enabled) [0..<8]),
              map (\<lambda>i. if 0 \<le> i \<and> i < 8 then decoded packet enabled i (chs ! i) else chs ! i)
                [0..<length chs])"
    using assms by (intro parse_loop_upt) simp_all
  moreover have "map (\<lambda>i. if 0 \<le> i \<and> i < 8 then decoded packet enabled i (chs ! i) else chs ! i)
                [0..<length chs] = map (\<lambda>i. decoded packet enabled i (chs ! i)) [0..<8]"
    using assms by simp
  ultimately show ?thesis by simp
qed

lemma parse_packet_valid:
  assumes "wf_globals g" "spec_frame_valid b"
  shows "parse_packet now b g =
           (ReturnTrue,
            g\<lparr>pdm_data :=
                 \<lparr> timestamp = Some now,
                   system_voltage =
                     py_round (ch_voltage (decoded b (channel_enabled g) 0 (channels (pdm_data g) ! 0))) 2,
                   total_current =
                     py_round (sum_list (map (decoded_current b (channel_enabled g)) [0..<8])) 2,
                   channels =
                     map (\<lambda>i. decoded b (channel_enabled g) i (channels (pdm_data g) ! i)) [0..<8] \<rparr>\<rparr>)"
proof -
  have loop: "parse_loop b (channel_enabled g) [0..<8] (1, 0, channels (pdm_data g))
           = (None, 57, sum_list (map (decoded_current b (channel_enabled g)) [0..<8]),
              map (\<lambda>i. decoded b (channel_enabled g) i (channels (pdm_data g) ! i)) [0..<8])"
    using assms by (intro parse_loop_8) (simp_all add: wf_globals_def spec_frame_valid_def)
  have upt: "[0..<8] = 0 # [1..<8]" by (simp add: upt_conv_Cons)
  have checks: "length b = 58" "b ! 0 = 0xAA" "xor_bytes (butlast b) = last b"
    using assms(2) xor_last [of b] by (simp_all add: spec_frame_valid_def)
  show ?thesis
    unfolding parse_packet_def loop using checks by (simp add: upt)
qed

lemma parse_packet_invalid:
  assumes "\<not> spec_frame_valid b"
  shows "parse_packet now b g =
           ((if length b \<noteq> 58 then FalseLength else if b ! 0 \<noteq> 0xAA then FalseHeader
             else FalseChecksum), g)"
  using assms xor_last [of b] by (auto simp: parse_packet_def spec_frame_valid_def)

lemma frame_zero_valid: "spec_frame_valid frame_zero"
  unfolding spec_frame_valid_def frame_zero_def xor_bytes_def by code_simp

lemma wf_globals_init: "wf_globals globals_init"
  by (simp add: wf_globals_def globals_init_def pdm_data_init_def)

text \<open>
  C1. For a snapshot of the shape the module keeps, \<open>parse_packet\<close> returns True exactly on
  the byte strings of length 58 whose byte 0 is 0xAA and whose byte 57 is the XOR of bytes
  0 to 56, and returns False on all others; the three rejections are tried in the order
  length, sync byte, checksum.
\<close>

theorem parse_packet_accepts_iff:
  assumes "wf_globals g"
  shows "(returned (fst (parse_packet now b g)) = Some True) = spec_frame_valid b
       \<and> (returned (fst (parse_packet now b g)) = Some False) = (\<not> spec_frame_valid b)
       \<and> (fst (parse_packet now b g) = FalseLength) = (length b \<noteq> 58)
       \<and> (fst (parse_packet now b g) = FalseHeader) = (length b = 58 \<and> b ! 0 \<noteq> 0xAA)
       \<and> (fst (parse_packet now b g) = FalseChecksum)
           = (length b = 58 \<and> b ! 0 = 0xAA \<and> b ! 57 \<noteq> xor_bytes (take 57 b))"
proof (cases "spec_frame_valid b")
  case True
  then show ?thesis
    using parse_packet_valid [OF assms True, of now]
    by (simp add: returned_def spec_frame_valid_def)
next
  case False
  then show ?thesis
    using parse_packet_invalid [OF False, of now g]
    by (auto simp: returned_def spec_frame_valid_def)
qed

theorem parse_packet_accepts_iff_witness:
  "wf_globals globals_init
     \<and> returned (fst (parse_packet ''2025-01-01T00:00:00'' frame_zero globals_init)) = Some True
     \<and> fst (parse_packet ''2025-01-01T00:00:00'' [0xAA, 0x00] globals_init) = FalseLength"
  using parse_packet_accepts_iff [OF wf_globals_init, of "''2025-01-01T00:00:00''" frame_zero]
    parse_packet_accepts_iff [OF wf_globals_init, of "''2025-01-01T00:00:00''" "[0xAA, 0x00]"]
    frame_zero_valid wf_globals_init
  by simp

text \<open>
  C9. A byte string that fails any of the three checks (length, sync byte, checksum) makes
  \<open>parse_packet\<close> return False with both globals, and so every field of the snapshot,
  exactly as they were.
\<close>

theorem parse_packet_rejected_unchanged:
  assumes "length b \<noteq> 58 \<or> b ! 0 \<noteq> 0xAA \<or> b ! 57 \<noteq> xor_bytes (take 57 b)"
  shows "returned (fst (parse_packet now b g)) = Some False \<and> snd (parse_packet now b g) = g"
proof -
  have "\<not> spec_frame_valid b" using assms by (auto simp: spec_frame_valid_def)
  from parse_packet_invalid [OF this, of now g] show ?thesis
    by (simp add: returned_def)
qed

theorem parse_packet_rejected_unchanged_witness:
  "(0xAA # replicate 56 0 @ [0x01 :: byte]) ! 57
           \<noteq> xor_bytes (take 57 (0xAA # replicate 56 0 @ [0x01]))
   \<and> returned (fst (parse_packet ''2025-01-01T00:00:00'' (0xAA # replicate 56 0 @ [0x01]) globals_init))
       = Some False
   \<and> snd (parse_packet ''2025-01-01T00:00:00'' (0xAA # replicate 56 0 @ [0x01]) globals_init)
       = globals_init"
proof -
  have bad: "(0xAA # replicate 56 0 @ [0x01 :: byte]) ! 57
           \<noteq> xor_bytes (take 57 (0xAA # replicate 56 0 @ [0x01]))"
    unfolding xor_bytes_def by code_simp
  from parse_packet_rejected_unchanged
         [of "0xAA # replicate 56 0 @ [0x01]" "''2025-01-01T00:00:00''" globals_init] bad
  show ?thesis by blast
qed


section \<open>Properties of the scenarios\<close>

subsection \<open>Event labels\<close>

lemma event_loop_filter:
  "event_loop evs t cur =
     (case filter (\<lambda>(et, m). et \<le> t) evs of [] \<Rightarrow> cur | x # xs \<Rightarrow> snd (last (x # xs)))"
  by (induction evs arbitrary: cur) (auto split: list.splits)

lemma event_loop_append:
  "event_loop (xs @ ys) t cur = event_loop ys t (event_loop xs t cur)"
  by (induction xs arbitrary: cur) auto

lemma event_loop_none:
  "\<forall>(et, m)\<in>set evs. t < et \<Longrightarrow> event_loop evs t cur = cur"
  by (induction evs arbitrary: cur) auto

text \<open>
  C7. For every event list and every elapsed time \<open>t\<close>, \<open>get_event_at_time\<close> returns the label
  of the last event of the list whose threshold is at most \<open>t\<close>, and the default label
  "Normal operation" when there is none; on a list in nondecreasing order that is the case
  when \<open>t\<close> is before the first threshold; an event followed only by events beyond \<open>t\<close> wins
  over every earlier one, also one with the same threshold.
\<close>

theorem get_event_at_time_last_wins:
  "get_event_at_time evs t =
     (case filter (\<lambda>(et, m). et \<le> t) evs of
        [] \<Rightarrow> ''Normal operation'' | x # xs \<Rightarrow> snd (last (x # xs)))
   \<and> (sorted (map fst evs) \<and> evs \<noteq> [] \<and> t < fst (hd evs)
        \<longrightarrow> get_event_at_time evs t = ''Normal operation'')
   \<and> (\<forall>pre et m post. evs = pre @ (et, m) # post \<and> et \<le> t \<and> (\<forall>(et', m')\<in>set post. t < et')
        \<longrightarrow> get_event_at_time evs t = m)"
proof (intro conjI allI impI)
  show "get_event_at_time evs t =
     (case filter (\<lambda>(et, m). et \<le> t) evs of
        [] \<Rightarrow> ''Normal operation'' | x # xs \<Rightarrow> snd (last (x # xs)))"
    by (simp add: get_event_at_time_def event_loop_filter)
next
  assume a: "sorted (map fst evs) \<and> evs \<noteq> [] \<and> t < fst (hd evs)"
  then obtain e rest where evs: "evs = e # rest" by (cases evs) auto
  with a have "\<forall>x\<in>set evs. t < fst x" by auto
  then have "\<forall>(et, m)\<in>set evs. t < et" by auto
  then show "get_event_at_time evs t = ''Normal operation''"
    by (simp add: get_event_at_time_def event_loop_none)
next
  fix pre et m post
  assume a: "evs = pre @ (et, m) # post \<and> et \<le> t \<and> (\<forall>(et', m')\<in>set post. t < et')"
  then show "get_event_at_time evs t = m"
    by (simp add: get_event_at_time_def event_loop_append event_loop_none)
qed

theorem get_event_at_time_last_wins_witness:
  "get_event_at_time [(1, ''first''), (1, ''second''), (2, ''third'')] 1 = ''second''
   \<and> get_event_at_time [(1, ''first''), (1, ''second''), (2, ''third'')] 0 = ''Normal operation''
   \<and> get_event_at_time (events CoolingFanFailure) 2.75 = ''Fan power dropping...''"
proof -
  let ?evs = "[(1::real, ''first''), (1, ''second''), (2, ''third'')]"
  have "get_event_at_time ?evs 1 = ''second''"
    using get_event_at_time_last_wins [of ?evs 1, THEN conjunct2, THEN conjunct2, rule_format,
        of "[(1, ''first'')]" 1 "''second''" "[(2, ''third'')]"]
    by simp
  moreover have "get_event_at_time ?evs 0 = ''Normal operation''"
    using get_event_at_time_last_wins [of ?evs 0, THEN conjunct2, THEN conjunct1] by simp
  moreover have "get_event_at_time (events CoolingFanFailure) 2.75 = ''Fan power dropping...''"
    using get_event_at_time_last_wins [of "events CoolingFanFailure" "2.75", THEN conjunct1] by simp
  ultimately show ?thesis by blast
qed

subsection \<open>The current of the failing fan\<close>

text \<open>
  From 3.0 s on, channel 3 of the fan-failure scenario has current 0.0 and status 2, the
  fault bit.
\<close>

lemma cooling_fan_after_3:
  assumes "3 \<le> t"
  shows "current (cooling_fan_states t ! 3) = 0 \<and> status (cooling_fan_states t ! 3) = 2"
  using assms
  by (simp add: cooling_fan_states_def fan_failure_base_def mk_def Let_def upt_rec)

text \<open>
  C8. Between 2.0 s and 3.0 s the current of channel 3 is not monotone: the first branch,
  commented "Drop to 50%", reaches 0 at 2.5 s instead of 4.0, and the second branch starts
  again from 4.0. At 2.375 s the current is 2.0 A; at 2.5 s it is 4.0 A.
\<close>

theorem cooling_fan_current_jumps_up:
  "current (cooling_fan_states 2.375 ! 3) = 2 \<and> current (cooling_fan_states 2.5 ! 3) = 4"
  by (simp add: cooling_fan_states_def fan_failure_base_def mk_def)

section \<open>Properties of the producer\<close>

subsection \<open>The enable override\<close>

lemma apply_mask_length: "length (apply_mask i m cs) = length cs"
  by (induction m arbitrary: i cs) auto

lemma apply_mask_nth:
  "i + length m \<le> length cs \<Longrightarrow> j < length cs \<Longrightarrow>
   apply_mask i m cs ! j =
     (if i \<le> j \<and> j < i + length m then (cs ! j)\<lparr>status := (if m ! (j - i) then 1 else 0)\<rparr>
      else cs ! j)"
proof (induction m arbitrary: i cs)
  case Nil
  then show ?case by simp
next
  case (Cons a m)
  then have i: "i < length cs" by simp
  have "Suc i + length m \<le> length (cs[i := (cs ! i)\<lparr>status := (if a then 1 else 0)\<rparr>])"
    using Cons.prems by simp
  from Cons.IH [OF this] Cons.prems i show ?case
    by (auto simp: nth_list_update nth_Cons' Suc_diff_le)
qed

text \<open>
  C10. When a control mask of eight entries is applied to the eight channel dictionaries,
  each channel's status becomes exactly 1 where its entry is true and exactly 0 where it is
  false, whatever it was before: fault, over-current and over-temperature bits are erased,
  also on channels whose entry is true. The other keys of the dictionary are untouched.
\<close>

theorem apply_channel_controls_overwrites_status:
  assumes "length (channels_state sim) = 8" "length m = 8" "i < 8"
  shows "channels_state (apply_channel_controls (Some m) sim) ! i
           = (channels_state sim ! i)\<lparr>status := (if m ! i then 1 else 0)\<rparr>
       \<and> status (channels_state (apply_channel_controls (Some m) sim) ! i) \<in> {0, 1}
       \<and> length (channels_state (apply_channel_controls (Some m) sim)) = 8"
  using assms apply_mask_nth [of 0 m "channels_state sim" i]
  by (simp add: apply_channel_controls_def apply_mask_length)

theorem apply_channel_controls_overwrites_status_witness:
  "length (channels_state (simulator_init\<lparr>channels_state := cooling_fan_states 4\<rparr>)) = 8
   \<and> length (replicate 8 True) = 8 \<and> (3::nat) < 8
   \<and> status (cooling_fan_states 4 ! 3) = 2
   \<and> status (channels_state (apply_channel_controls (Some (replicate 8 True))
                 (simulator_init\<lparr>channels_state := cooling_fan_states 4\<rparr>)) ! 3) = 1"
proof -
  have l: "length (channels_state (simulator_init\<lparr>channels_state := cooling_fan_states 4\<rparr>)) = 8"
    by (simp add: cooling_fan_states_def fan_failure_base_def upt_rec)
  have s: "status (cooling_fan_states 4 ! 3) = 2"
    by (simp add: cooling_fan_states_def fan_failure_base_def upt_rec mk_def)
  from apply_channel_controls_overwrites_status [OF l, of "replicate 8 True" 3] l s
  show ?thesis by simp
qed


text \<open>
  C3, producer side. With channel 0 disabled in the control mask and the fan-failure
  scenario running, the tick leaves channel 0 with status 0 and the scenario's current of
  5.2 A, and the packet it builds carries 5200 mA for channel 0: \<open>apply_channel_controls\<close>
  only writes the status, and \<open>update_sensors\<close>, which zeroes the current of an off channel,
  returns at once while a scenario is active.
\<close>

theorem disabled_channel_keeps_scenario_current:
  "channels_state (tick_state (Some 1) 0 0 (Some mask_ch0_off) draws_zero simulator_init) ! 0
     = mk 13.8 5.2 45.0 0
   \<and> (\<exists>frame. tick_packet (Some 1) 0 0 (Some mask_ch0_off) draws_zero simulator_init = Inr frame
         \<and> record_at frame 0 = (13800, 5200, 450, 0))"
  by (simp add: tick_packet_def tick_state_def maybe_start_scenario_def get_scenario_def
      update_scenario_state_def duration_def Let_def cooling_fan_states_def fan_failure_base_def
      apply_channel_controls_def mask_ch0_off_def update_sensors_def mk_def make_packet_def
      py_int_def pack_HHhB_def pack_H_def pack_h_def pack_B_def record_at_def unpack_H_def
      unpack_h_def)

text \<open>
  The ambient path zeroes the current of the disabled fan, but its automatic switch runs
  after the override in the same tick. With the fan (channel 3) and the starter disabled,
  the fan-failure scenario triggered at 0 s and ticks at 4.5 s and 5 s, the last tick runs
  the ambient update on channels whose mean temperature is above 40: the fan's status is 1
  again, with current 0.
\<close>

lemma disabled_fan_switched_on_again:
  "status (channels_state
     (tick_state None 5 5 (Some mask_fan_off) draws_zero
       (tick_state None 4.5 4.5 (Some mask_fan_off) draws_zero
         (tick_state (Some 1) 0 0 (Some mask_fan_off) draws_zero simulator_init))) ! 3) = 1
   \<and> current (channels_state
     (tick_state None 5 5 (Some mask_fan_off) draws_zero
       (tick_state None 4.5 4.5 (Some mask_fan_off) draws_zero
         (tick_state (Some 1) 0 0 (Some mask_fan_off) draws_zero simulator_init))) ! 3) = 0"
  by code_simp

subsection \<open>The scenario lifecycle\<close>

lemma no_trigger_tuple: "no_trigger (ts, tu, c, r) = (None, ts, tu, c, r)"
  by (simp add: no_trigger_def)

lemma apply_channel_controls_scn [simp]:
  "active_scenario (apply_channel_controls c sim) = active_scenario sim"
  "scenario_started_at (apply_channel_controls c sim) = scenario_started_at sim"
  "scenario_info (apply_channel_controls c sim) = scenario_info sim"
  by (simp_all add: apply_channel_controls_def split: option.splits)

lemma update_sensors_scn [simp]:
  "active_scenario (update_sensors r sim) = active_scenario sim"
  "scenario_started_at (update_sensors r sim) = scenario_started_at sim"
  "scenario_info (update_sensors r sim) = scenario_info sim"
  by (simp_all add: update_sensors_def Let_def split: option.splits)

lemma update_idle:
  assumes "active_scenario sim = None"
  shows "active_scenario (update_scenario_state now sim) = None"
    "info_status (scenario_info (update_scenario_state now sim)) = ''idle''"
  using assms by (simp_all add: update_scenario_state_def)

lemma update_active:
  assumes "active_scenario sim = Some sc" "now - scenario_started_at sim < duration sc"
  shows "active_scenario (update_scenario_state now sim) = Some sc"
    "scenario_started_at (update_scenario_state now sim) = scenario_started_at sim"
    "info_status (scenario_info (update_scenario_state now sim)) = ''active''"
  using assms by (cases sc; simp add: update_scenario_state_def Let_def)+

lemma update_complete:
  assumes "active_scenario sim = Some sc" "\<not> now - scenario_started_at sim < duration sc"
  shows "active_scenario (update_scenario_state now sim) = None"
    "info_status (scenario_info (update_scenario_state now sim)) = ''complete''"
  using assms by (simp_all add: update_scenario_state_def Let_def)

lemma tick_state_scn:
  "active_scenario (tick_state None ts tu c r sim) = active_scenario (update_scenario_state tu sim)"
  "scenario_started_at (tick_state None ts tu c r sim) = scenario_started_at (update_scenario_state tu sim)"
  "scenario_info (tick_state None ts tu c r sim) = scenario_info (update_scenario_state tu sim)"
  by (simp_all add: tick_state_def maybe_start_scenario_def)

lemma run_published_Cons:
  "run_published sim ((trigger, ts, tu, c, r) # rest) = (ss, None) \<Longrightarrow>
   \<exists>later. ss = info_status (scenario_info (tick_state trigger ts tu c r sim)) # later
     \<and> run_published (tick_state trigger ts tu c r sim) rest = (later, None)"
  by (auto simp: Let_def split: sum.splits prod.splits)

lemma published_idle:
  "active_scenario sim = None \<Longrightarrow> run_published sim (map no_trigger rest) = (ss, None) \<Longrightarrow>
   ss = replicate (length rest) ''idle''"
proof (induction rest arbitrary: sim ss)
  case Nil
  then show ?case by simp
next
  case (Cons x rest)
  obtain ts tu c r where x: "x = (ts, tu, c, r)" by (cases x) auto
  let ?sim' = "tick_state None ts tu c r sim"
  from Cons.prems(2) obtain later where
    ss: "ss = info_status (scenario_info ?sim') # later"
    and run: "run_published ?sim' (map no_trigger rest) = (later, None)"
    using run_published_Cons [of sim None ts tu c r "map no_trigger rest" ss]
    by (auto simp: x no_trigger_tuple)
  have "active_scenario ?sim' = None" "info_status (scenario_info ?sim') = ''idle''"
    using Cons.prems(1) by (simp_all add: tick_state_scn update_idle)
  with Cons.IH [of ?sim' later] run ss show ?case by simp
qed

lemma published_active:
  "active_scenario sim = Some sc \<Longrightarrow> run_published sim (map no_trigger rest) = (ss, None) \<Longrightarrow>
   ss = spec_lifecycle (duration sc) (map (\<lambda>(ts, tu, c, r). tu - scenario_started_at sim) rest)"
proof (induction rest arbitrary: sim ss)
  case Nil
  then show ?case by (simp add: spec_lifecycle_def)
next
  case (Cons x rest)
  obtain ts tu c r where x: "x = (ts, tu, c, r)" by (cases x) auto
  let ?sim' = "tick_state None ts tu c r sim"
  from Cons.prems(2) obtain later where
    ss: "ss = info_status (scenario_info ?sim') # later"
    and run: "run_published ?sim' (map no_trigger rest) = (later, None)"
    using run_published_Cons [of sim None ts tu c r "map no_trigger rest" ss]
    by (auto simp: x no_trigger_tuple)
  show ?case
  proof (cases "tu - scenario_started_at sim < duration sc")
    case True
    have "active_scenario ?sim' = Some sc" "scenario_started_at ?sim' = scenario_started_at sim"
      "info_status (scenario_info ?sim') = ''active''"
      using Cons.prems(1) True by (simp_all add: tick_state_scn update_active)
    with Cons.IH [of ?sim' later] run ss True show ?thesis
      by (simp add: x spec_lifecycle_def)
  next
    case False
    have "active_scenario ?sim' = None" "info_status (scenario_info ?sim') = ''complete''"
      using Cons.prems(1) False by (simp_all add: tick_state_scn update_complete)
    with published_idle [of ?sim' rest later] run ss False show ?thesis
      by (simp add: x spec_lifecycle_def)
  qed
qed

text \<open>
  In a run that no error ends, the published statuses follow the lifecycle: a tick that
  reads the trigger of a registered scenario at clock reading \<open>t0\<close>, followed by ticks
  without trigger, publishes "active" while the observed elapsed time is below the
  duration, "complete" once, at the first tick at or beyond it, and "idle" afterwards.
\<close>

lemma lifecycle_when_every_frame_is_built:
  assumes "get_scenario scenario_id = Some sc"
    and "run_published sim ((Some scenario_id, t0, t1, c, r) # map no_trigger rest) = (ss, None)"
  shows "ss = spec_lifecycle (duration sc) (map (\<lambda>t. t - t0) (t1 # map (\<lambda>(ts, tu, c, r). tu) rest))"
proof -
  let ?s = "maybe_start_scenario (Some scenario_id) t0 sim"
  have a: "active_scenario ?s = Some sc" "scenario_started_at ?s = t0"
    using assms(1) by (simp_all add: maybe_start_scenario_def)
  have eq: "tick_state (Some scenario_id) t0 t1 c r sim = tick_state None t0 t1 c r ?s"
    by (simp add: tick_state_def maybe_start_scenario_def)
  have "run_published ?s (map no_trigger ((t0, t1, c, r) # rest)) = (ss, None)"
    using assms(2) by (simp add: eq no_trigger_tuple)
  from published_active [OF a(1) this]
  have "ss = spec_lifecycle (duration sc)
       (map (\<lambda>(ts, tu, c, r). tu - scenario_started_at ?s) ((t0, t1, c, r) # rest))" .
  also have "(map (\<lambda>(ts, tu, c, r). tu - scenario_started_at ?s) ((t0, t1, c, r) # rest))
     = map (\<lambda>t. t - t0) (t1 # map (\<lambda>(ts, tu, c, r). tu) rest)"
    using a(2) by (auto simp: case_prod_beta)
  finally show ?thesis .
qed

text \<open>
  The fan-failure scenario, triggered at 0 s with ticks at 2.5 s, 5 s and 5.5 s, is such a
  run.
\<close>

lemma fan_failure_run_completes:
  "run_published simulator_init
     [(Some 1, 0, 0, None, draws_zero), (None, 2.5, 2.5, None, draws_zero),
      (None, 5, 5, None, draws_zero), (None, 5.5, 5.5, None, draws_zero)]
     = ([''active'', ''active'', ''complete'', ''idle''], None)"
  by code_simp

text \<open>
  C6. The lifecycle fails for the start-up scenario. Triggered at 0 s with ticks at 0.5 s,
  1 s and 5 s, the run publishes "active" twice; the tick at 1 s, inside the duration of
  5 s, has a starter current of 150 A, \<^verbatim>\<open>_make_packet\<close> raises \<^verbatim>\<open>struct.error\<close>, and the run
  ends: no status is published for that tick and "complete" is never published.
\<close>

theorem start_up_scenario_never_completes:
  "run_published simulator_init
     [(Some 2, 0, 0, None, draws_zero), (None, 0.5, 0.5, None, draws_zero),
      (None, 1, 1, None, draws_zero), (None, 5, 5, None, draws_zero)]
     = ([''active'', ''active''], Some StructError)"
  by code_simp

section \<open>The codec: encoder against decoder\<close>

lemma unpack_pack_H:
  assumes "0 \<le> n" "n \<le> 65535"
  shows "unpack_H (word_of_int n) (word_of_int (n div 256)) = n"
proof -
  have "n div 256 < 256" "0 \<le> n div 256" using assms by simp_all
  then have "(n div 256) mod 256 = n div 256" by simp
  then show ?thesis
    by (simp add: unpack_H_def uint_word_of_int take_bit_eq_mod)
qed

lemma unpack_pack_h:
  assumes "- 32768 \<le> n" "n \<le> 32767"
  shows "unpack_h (word_of_int n) (word_of_int (n div 256)) = n"
proof -
  have u: "unpack_H (word_of_int n) (word_of_int (n div 256)) = n mod 65536"
  proof -
    have "n mod 65536 = n mod 256 + 256 * ((n div 256) mod 256)"
      using zmod_zmult2_eq [of 256 n 256] by simp
    then show ?thesis by (simp add: unpack_H_def uint_word_of_int take_bit_eq_mod)
  qed
  show ?thesis
  proof (cases "0 \<le> n")
    case True
    then have "n mod 65536 = n" using assms by simp
    then show ?thesis using assms True by (simp add: unpack_h_def u Let_def)
  next
    case False
    have "(n + 65536) mod 65536 = n + 65536"
      using assms False by (intro mod_pos_pos_trivial) simp_all
    then have "n mod 65536 = n + 65536" by simp
    then show ?thesis using assms False by (simp add: unpack_h_def u Let_def)
  qed
qed

lemma pack_HHhB_encodable:
  "encodable ch \<Longrightarrow>
   pack_HHhB (py_int (voltage ch * 1000)) (py_int (current ch * 1000)) (py_int (temp ch * 10))
     (status ch) = Inr (sample_bytes ch)"
  by (simp add: encodable_def pack_HHhB_def pack_H_def pack_h_def pack_B_def sample_bytes_def)

lemma pack_HHhB_not_encodable:
  "\<not> encodable ch \<Longrightarrow>
   pack_HHhB (py_int (voltage ch * 1000)) (py_int (current ch * 1000)) (py_int (temp ch * 10))
     (status ch) = Inl StructError"
  by (auto simp: encodable_def pack_HHhB_def pack_H_def pack_h_def pack_B_def)

lemma make_packet_loop_ok:
  "\<forall>ch\<in>set cs. encodable ch \<Longrightarrow>
   make_packet_loop cs packet = Inr (packet @ concat (map sample_bytes cs))"
  by (induction cs arbitrary: packet) (simp_all add: Let_def pack_HHhB_encodable)

lemma make_packet_loop_fails:
  "\<exists>ch\<in>set cs. \<not> encodable ch \<Longrightarrow> make_packet_loop cs packet = Inl StructError"
proof (induction cs arbitrary: packet)
  case Nil
  then show ?case by simp
next
  case (Cons ch cs)
  show ?case
  proof (cases "encodable ch")
    case True
    with Cons show ?thesis by (simp add: Let_def pack_HHhB_encodable)
  next
    case False
    then show ?thesis by (simp add: Let_def pack_HHhB_not_encodable)
  qed
qed

lemma length_sample_bytes [simp]: "length (sample_bytes ch) = 7"
  by (simp add: sample_bytes_def)

lemma length_concat_sample_bytes [simp]: "length (concat (map sample_bytes cs)) = 7 * length cs"
  by (induction cs) simp_all

lemma concat_sample_bytes_nth:
  "i < length cs \<Longrightarrow> j < 7 \<Longrightarrow> concat (map sample_bytes cs) ! (7 * i + j) = sample_bytes (cs ! i) ! j"
proof (induction cs arbitrary: i)
  case Nil
  then show ?case by simp
next
  case (Cons c cs)
  show ?case
  proof (cases i)
    case 0
    with Cons.prems show ?thesis by (simp add: nth_append)
  next
    case (Suc k)
    have "concat (map sample_bytes (c # cs)) ! (7 * Suc k + j)
            = concat (map sample_bytes cs) ! (7 * k + j)"
      by (simp add: nth_append)
    with Cons.IH [of k] Cons.prems Suc show ?thesis by simp
  qed
qed

lemma make_packet_encodable:
  "\<forall>ch\<in>set cs. encodable ch \<Longrightarrow> make_packet cs = Inr (frame_of cs)"
  by (simp add: make_packet_def make_packet_loop_ok frame_of_def)

lemma frame_of_valid:
  assumes "length cs = 8"
  shows "spec_frame_valid (frame_of cs)"
  using assms by (simp add: spec_frame_valid_def frame_of_def nth_append)

lemma frame_of_nth:
  assumes "i < length cs" "j < 7"
  shows "frame_of cs ! (1 + 7 * i + j) = sample_bytes (cs ! i) ! j"
proof -
  have "7 * i + j < 7 * length cs" using assms by simp
  then show ?thesis
    using concat_sample_bytes_nth [OF assms]
    by (simp add: frame_of_def nth_append)
qed

lemma record_at_frame_of:
  assumes "i < length cs" "encodable (cs ! i)"
  shows "record_at (frame_of cs) i =
           (py_int (voltage (cs ! i) * 1000), py_int (current (cs ! i) * 1000),
            py_int (temp (cs ! i) * 10), word_of_int (status (cs ! i)))"
proof -
  have n: "frame_of cs ! (1 + 7 * i) = sample_bytes (cs ! i) ! 0"
    "frame_of cs ! (1 + 7 * i + 1) = sample_bytes (cs ! i) ! 1"
    "frame_of cs ! (1 + 7 * i + 2) = sample_bytes (cs ! i) ! 2"
    "frame_of cs ! (1 + 7 * i + 3) = sample_bytes (cs ! i) ! 3"
    "frame_of cs ! (1 + 7 * i + 4) = sample_bytes (cs ! i) ! 4"
    "frame_of cs ! (1 + 7 * i + 5) = sample_bytes (cs ! i) ! 5"
    "frame_of cs ! (1 + 7 * i + 6) = sample_bytes (cs ! i) ! 6"
    using frame_of_nth [OF assms(1), of 0] frame_of_nth [OF assms(1), of 1]
      frame_of_nth [OF assms(1), of 2] frame_of_nth [OF assms(1), of 3]
      frame_of_nth [OF assms(1), of 4] frame_of_nth [OF assms(1), of 5]
      frame_of_nth [OF assms(1), of 6] by simp_all
  show ?thesis
    unfolding record_at_def Let_def n using assms(2)
    by (simp add: sample_bytes_def encodable_def unpack_pack_H unpack_pack_h)
qed


lemma py_int_bound: "\<bar>real_of_int (py_int x) - x\<bar> < 1"
proof (cases "0 \<le> x")
  case True
  then show ?thesis by (simp add: py_int_def) linarith
next
  case False
  then show ?thesis by (simp add: py_int_def) linarith
qed

lemma round_half_even_bound: "\<bar>real_of_int (round_half_even x) - x\<bar> \<le> 1 / 2"
  unfolding round_half_even_def Let_def by (auto; linarith)

lemma round_half_even_of_int [simp]: "round_half_even (real_of_int k) = k"
  by (simp add: round_half_even_def)

lemma py_round_bound_2: "\<bar>py_round y 2 - y\<bar> \<le> 5 / 1000"
proof -
  have "\<bar>real_of_int (round_half_even (y * 100)) - y * 100\<bar> \<le> 1 / 2"
    by (rule round_half_even_bound)
  then show ?thesis by (simp add: py_round_def field_simps abs_le_iff)
qed

lemma py_round_tenths: "py_round (real_of_int k / 10) 1 = real_of_int k / 10"
  by (simp add: py_round_def)

lemma py_round_tenths_Suc [simp]: "py_round (real_of_int k / 10) (Suc 0) = real_of_int k / 10"
  using py_round_tenths [of k] by simp

lemma py_round_zero [simp]: "py_round 0 n = 0"
  by (simp add: py_round_def round_half_even_def)

lemma stored_milli_bound:
  "\<bar>py_round (real_of_int (py_int (x * 1000)) / 1000) 2 - x\<bar> < 6 / 1000"
proof -
  have a: "\<bar>real_of_int (py_int (x * 1000)) / 1000 - x\<bar> < 1 / 1000"
    using py_int_bound [of "x * 1000"] by (simp add: field_simps abs_less_iff)
  have b: "\<bar>py_round (real_of_int (py_int (x * 1000)) / 1000) 2
             - real_of_int (py_int (x * 1000)) / 1000\<bar> \<le> 5 / 1000"
    by (rule py_round_bound_2)
  from a b show ?thesis by linarith
qed

lemma stored_deci_bound:
  "\<bar>py_round (real_of_int (py_int (x * 10)) / 10) 1 - x\<bar> < 1 / 10"
proof -
  have "\<bar>real_of_int (py_int (x * 10)) / 10 - x\<bar> < 1 / 10"
    using py_int_bound [of "x * 10"] by (simp add: field_simps abs_less_iff)
  then show ?thesis by (simp only: py_round_tenths)
qed

lemma status_bits:
  fixes s :: int
  shows "((word_of_int s :: byte) AND 1 \<noteq> 0) = bit s 0"
    "((word_of_int s :: byte) AND 2 \<noteq> 0) = bit s 1"
    "((word_of_int s :: byte) AND 4 \<noteq> 0) = bit s 2"
    "((word_of_int s :: byte) AND 8 \<noteq> 0) = bit s 3"
proof -
  have "((word_of_int s :: byte) AND 2 ^ n = 0) = (\<not> bit (word_of_int s :: byte) n)" for n
    by (rule and_exp_eq_0_iff_not_bit)
  from this [of 0] this [of 1] this [of 2] this [of 3]
  show "((word_of_int s :: byte) AND 1 \<noteq> 0) = bit s 0"
    "((word_of_int s :: byte) AND 2 \<noteq> 0) = bit s 1"
    "((word_of_int s :: byte) AND 4 \<noteq> 0) = bit s 2"
    "((word_of_int s :: byte) AND 8 \<noteq> 0) = bit s 3"
    by (simp_all add: bit_word_of_int_iff)
qed

lemma decoded_frame_of:
  assumes "i < length cs" "encodable (cs ! i)"
  shows "decoded (frame_of cs) en i ch =
           ch\<lparr> ch_voltage := py_round (real_of_int (py_int (voltage (cs ! i) * 1000)) / 1000) 2,
               ch_current := (if en ! i
                              then py_round (real_of_int (py_int (current (cs ! i) * 1000)) / 1000) 2
                              else 0),
               ch_temperature := real_of_int (py_int (temp (cs ! i) * 10)) / 10,
               ch_status := \<lparr> on = (en ! i \<and> bit (status (cs ! i)) 0),
                              fault = bit (status (cs ! i)) 1,
                              over_current = bit (status (cs ! i)) 2,
                              over_temp = bit (status (cs ! i)) 3 \<rparr> \<rparr>"
  by (simp add: decoded_def record_at_frame_of [OF assms] store_channel_def Let_def status_bits)


lemma channels_after_valid:
  assumes "wf_globals g" "spec_frame_valid b" "i < 8"
  shows "channels (pdm_data (snd (parse_packet now b g))) ! i
           = decoded b (channel_enabled g) i (channels (pdm_data g) ! i)"
proof -
  have "[0..<8] ! i = i" "i < length [0..<8]" using assms(3) by simp_all
  then show ?thesis
    using parse_packet_valid [OF assms(1,2), of now] by (simp del: upt_Suc)
qed

lemma store_channel_unit_values:
  "store_channel enabled rec ch =
     (case unit_values rec of (voltage', current', temperature', status_byte) \<Rightarrow>
        (if enabled then current' else 0,
         ch\<lparr> ch_voltage := py_round voltage' 2,
             ch_current := py_round (if enabled then current' else 0) 2,
             ch_temperature := py_round temperature' 1,
             ch_status := \<lparr> on = (enabled \<and> status_byte AND 1 \<noteq> 0),
                            fault = (status_byte AND 2 \<noteq> 0),
                            over_current = (status_byte AND 4 \<noteq> 0),
                            over_temp = (status_byte AND 8 \<noteq> 0) \<rparr> \<rparr>))"
proof -
  obtain voltage_mv current_ma temp_dec status_byte
    where rec: "rec = (voltage_mv, current_ma, temp_dec, status_byte)"
    by (cases rec) auto
  show ?thesis
    unfolding rec by (simp add: store_channel_def unit_values_def Let_def)
qed




text \<open>
  The snapshot holds these values after \<^verbatim>\<open>round(voltage, 2)\<close>, \<^verbatim>\<open>round(current, 2)\<close>,
  \<^verbatim>\<open>round(temperature, 1)\<close>, the override and the decoding of four flags: the stored
  voltage is within 6 mV of the original, the stored current within 6 mA on an enabled
  channel and 0 on a disabled one, the stored temperature within 0.1 degree, and the stored
  flags are bits 0 to 3 of the status, the "on" flag only when the channel is enabled.
\<close>

lemma snapshot_within_stored_resolution:
  assumes "length cs = 8" "\<forall>ch\<in>set cs. encodable ch" "wf_globals g" "i < 8"
  shows "make_packet cs = Inr (frame_of cs)
       \<and> returned (fst (parse_packet now (frame_of cs) g)) = Some True
       \<and> \<bar>ch_voltage (channels (pdm_data (snd (parse_packet now (frame_of cs) g))) ! i)
            - voltage (cs ! i)\<bar> < 6 / 1000
       \<and> (if channel_enabled g ! i
           then \<bar>ch_current (channels (pdm_data (snd (parse_packet now (frame_of cs) g))) ! i)
                  - current (cs ! i)\<bar> < 6 / 1000
           else ch_current (channels (pdm_data (snd (parse_packet now (frame_of cs) g))) ! i) = 0)
       \<and> \<bar>ch_temperature (channels (pdm_data (snd (parse_packet now (frame_of cs) g))) ! i)
            - temp (cs ! i)\<bar> < 1 / 10
       \<and> ch_status (channels (pdm_data (snd (parse_packet now (frame_of cs) g))) ! i)
           = \<lparr> on = (channel_enabled g ! i \<and> bit (status (cs ! i)) 0),
               fault = bit (status (cs ! i)) 1,
               over_current = bit (status (cs ! i)) 2,
               over_temp = bit (status (cs ! i)) 3 \<rparr>"
proof -
  have v: "spec_frame_valid (frame_of cs)" using assms(1) by (rule frame_of_valid)
  have i: "i < length cs" "encodable (cs ! i)" using assms by simp_all
  have m: "make_packet cs = Inr (frame_of cs)" using assms(2) by (rule make_packet_encodable)
  have r: "returned (fst (parse_packet now (frame_of cs) g)) = Some True"
    using parse_packet_valid [OF assms(3) v, of now] by (simp add: returned_def)
  note ch = channels_after_valid [OF assms(3) v assms(4), of now] decoded_frame_of [OF i]
  have t: "\<bar>real_of_int (py_int (temp (cs ! i) * 10)) / 10 - temp (cs ! i)\<bar> < 1 / 10"
    using py_int_bound [of "temp (cs ! i) * 10"] by (simp add: field_simps abs_less_iff)
  show ?thesis
    unfolding ch using m r t stored_milli_bound [of "voltage (cs ! i)"]
      stored_milli_bound [of "current (cs ! i)"]
    by simp
qed

text \<open>
  C5. The encoder is not total. The start-up scenario of the repository at 1.0 s gives
  eight samples with a starter current of 150 A; its 150000 mA is outside the range of
  format \<^verbatim>\<open>H\<close>, and \<^verbatim>\<open>_make_packet\<close> raises \<^verbatim>\<open>struct.error\<close> instead of returning a frame
  of 58 bytes: there is neither a clamp nor a wrap-around.
\<close>

theorem make_packet_raises_on_starter_current:
  "length (engine_start_states 1) = 8
   \<and> current (engine_start_states 1 ! 7) = 150
   \<and> make_packet (engine_start_states 1) = Inl StructError"
  by (simp add: make_packet_def engine_start_states_def engine_start_base_def mk_def upt_rec
      py_int_def pack_HHhB_def pack_H_def pack_h_def pack_B_def)

text \<open>
  On eight samples in the encodable range the encoder does return a frame of 58 bytes that
  passes the three checks of the decoder, and the record of channel \<open>i\<close> in it holds the
  scaled values as \<^verbatim>\<open>int()\<close> gives them, and the status.
\<close>

lemma make_packet_in_range:
  assumes "length cs = 8" "\<forall>ch\<in>set cs. encodable ch" "i < 8"
  shows "make_packet cs = Inr (frame_of cs)
       \<and> length (frame_of cs) = 58
       \<and> spec_frame_valid (frame_of cs)
       \<and> record_at (frame_of cs) i =
           (py_int (voltage (cs ! i) * 1000), py_int (current (cs ! i) * 1000),
            py_int (temp (cs ! i) * 10), word_of_int (status (cs ! i)))"
proof -
  have i: "i < length cs" "encodable (cs ! i)" using assms by simp_all
  show ?thesis
    using make_packet_encodable [OF assms(2)] frame_of_valid [OF assms(1)]
      record_at_frame_of [OF i] assms(1)
    by (simp add: frame_of_def)
qed

text \<open>
  C4, as stated, fails. On an accepted frame \<open>parse_packet\<close> itself writes the snapshot:
  the timestamp of the initial snapshot is None before the call and set after it.
\<close>

theorem parse_packet_mutates_store:
  "returned (fst (parse_packet now0 frame_zero globals_init)) = Some True
   \<and> timestamp (pdm_data globals_init) = None
   \<and> timestamp (pdm_data (snd (parse_packet now0 frame_zero globals_init))) = Some now0"
  using parse_packet_valid [OF wf_globals_init frame_zero_valid, of now0]
  by (simp add: returned_def globals_init_def pdm_data_init_def)

text \<open>
  C4, amended. \<open>parse_packet\<close> never changes the enable mask nor the \<^verbatim>\<open>id\<close> and
  \<^verbatim>\<open>name\<close> of a channel record. On a frame that passes the three checks it overwrites the
  snapshot: timestamp, system voltage, total current and the measured keys of all eight
  channel records, as decoded from the frame. On any other input it changes nothing.
\<close>

theorem parse_packet_store_effect:
  assumes "wf_globals g"
  shows "channel_enabled (snd (parse_packet now b g)) = channel_enabled g
       \<and> map ch_id (channels (pdm_data (snd (parse_packet now b g)))) = map ch_id (channels (pdm_data g))
       \<and> map ch_name (channels (pdm_data (snd (parse_packet now b g)))) = map ch_name (channels (pdm_data g))
       \<and> (if spec_frame_valid b
           then pdm_data (snd (parse_packet now b g)) =
                  \<lparr> timestamp = Some now,
                    system_voltage =
                      py_round (ch_voltage (decoded b (channel_enabled g) 0 (channels (pdm_data g) ! 0))) 2,
                    total_current =
                      py_round (sum_list (map (decoded_current b (channel_enabled g)) [0..<8])) 2,
                    channels =
                      map (\<lambda>i. decoded b (channel_enabled g) i (channels (pdm_data g) ! i)) [0..<8] \<rparr>
           else snd (parse_packet now b g) = g)"
proof (cases "spec_frame_valid b")
  case True
  have l: "length (channels (pdm_data g)) = 8" using assms by (simp add: wf_globals_def)
  have ids: "map ch_id (map (\<lambda>i. decoded b (channel_enabled g) i (channels (pdm_data g) ! i)) [0..<8])
           = map ch_id (channels (pdm_data g))"
    "map ch_name (map (\<lambda>i. decoded b (channel_enabled g) i (channels (pdm_data g) ! i)) [0..<8])
           = map ch_name (channels (pdm_data g))"
    using l by (auto intro!: nth_equalityI simp: decoded_def store_channel_def Let_def
        split: prod.splits simp del: upt_Suc)
  show ?thesis
    using True ids parse_packet_valid [OF assms True, of now] by simp
next
  case False
  then show ?thesis using parse_packet_invalid [OF False, of now g] by simp
qed

theorem parse_packet_store_effect_witness:
  "wf_globals globals_init
   \<and> spec_frame_valid frame_zero
   \<and> timestamp (pdm_data (snd (parse_packet now0 frame_zero globals_init))) = Some now0
   \<and> map ch_name (channels (pdm_data (snd (parse_packet now0 frame_zero globals_init)))) = CHANNEL_NAMES
   \<and> channel_enabled (snd (parse_packet now0 frame_zero globals_init)) = replicate 8 True"
proof -
  have n: "map ch_name (channels (pdm_data globals_init)) = CHANNEL_NAMES"
    by (simp add: globals_init_def pdm_data_init_def CHANNEL_NAMES_def)
  have e: "channel_enabled globals_init = replicate 8 True" by (simp add: globals_init_def)
  note t = parse_packet_store_effect [OF wf_globals_init, of now0 frame_zero]
  have "timestamp (pdm_data (snd (parse_packet now0 frame_zero globals_init))) = Some now0"
    using t [THEN conjunct2, THEN conjunct2, THEN conjunct2] frame_zero_valid by simp
  with t [THEN conjunct1] t [THEN conjunct2, THEN conjunct2, THEN conjunct1]
    frame_zero_valid wf_globals_init n e
  show ?thesis by (simp only: simp_thms)
qed

text \<open>
  C3, consumer side. In the snapshot written from an accepted frame, a channel whose mask
  entry is false has current 0 and its "on" flag false, whatever the frame carries.
\<close>

lemma parse_packet_disabled_channel:
  assumes "wf_globals g" "spec_frame_valid b" "i < 8" "\<not> channel_enabled g ! i"
  shows "ch_current (channels (pdm_data (snd (parse_packet now b g))) ! i) = 0
       \<and> \<not> on (ch_status (channels (pdm_data (snd (parse_packet now b g))) ! i))"
  using assms(4) unfolding channels_after_valid [OF assms(1,2,3)]
  by (simp add: decoded_def store_channel_def Let_def split: prod.splits)

end
